theory Spec2Isabelle
  imports Main
begin

section \<open>The lazy CSV viewer: data model\<close>

text \<open>
  The program is one class, \<open>LazyCSVViewerGUI\<close> (main.py). Its pagination state is a
  handful of attributes set in \<open>__init__\<close> (lines 25-33); the page itself is written into
  the tree widget by \<open>_load_page\<close> (lines 416-480). The widget is modelled by what
  \<open>_load_page\<close> writes into it: its column identifiers, its headings and its rows.

  Python integers are unbounded, hence \<open>int\<close>. The records a scan reads are what
  \<open>csv.reader(f, delimiter=self.delimiter)\<close> yields for the file, in order: a list of
  records, each a list of field strings. Every operation that may scan the file takes
  that list as its argument \<open>recs\<close>; an empty list is an empty file.
\<close>

type_synonym row = "string list"
type_synonym records = "row list"

datatype error = StopIteration | IndexError

datatype row_tag = Even | Odd

datatype notice = ShowError string string | ShowInfo string string

record viewer =
  file_path :: "string option"
  page_size :: int
  current_page :: int
  has_next_page :: bool
  delimiter :: char
  expand_columns :: bool
  hidden_columns :: "int set"
  column_headers :: "string list"
  column_visibility_enabled :: bool
  tree_columns :: "nat list"
  tree_headings :: "(nat \<times> string) list"
  tree_rows :: "(row \<times> row_tag) list"
  page_label :: int
  notices :: "notice list"
  scans :: nat

text \<open>
  \<open>page_label\<close> is the number shown by the label "Page n"; \<open>notices\<close> are the message
  boxes shown so far, oldest first; \<open>scans\<close> counts how often the file has been opened
  for reading (line 427).
\<close>

text \<open>
  An operation either returns or lets an exception escape to the event loop. In both
  cases the object lives on, so the outcome carries the state the operation left.
\<close>

datatype outcome = Done viewer | Raised error viewer

fun state_of :: "outcome \<Rightarrow> viewer" where
  "state_of (Done s) = s"
| "state_of (Raised e s) = s"

fun raised :: "outcome \<Rightarrow> error option" where
  "raised (Done s) = None"
| "raised (Raised e s) = Some e"

text \<open>Lines 34-40: the delimiters on offer, each with its display text.\<close>

definition delimiter_options :: "(char \<times> string) list" where
  "delimiter_options =
     [(CHR '','', ''Comma (,)''),
      (CHR 0x09, ''Tab ('' @ [CHR 0x5C] @ ''t)''),
      (CHR '';'', ''Semicolon (;)''),
      (CHR ''|'', ''Pipe (|)''),
      (CHR '' '', ''Space ( )'')]"

text \<open>Lines 25-33 and the widget defaults (lines 199, 239).\<close>

definition initial_state :: viewer where
  "initial_state =
     \<lparr>file_path = None, page_size = 200, current_page = 0, has_next_page = False,
      delimiter = CHR 0x09, expand_columns = False, hidden_columns = {},
      column_headers = [], column_visibility_enabled = False,
      tree_columns = [], tree_headings = [], tree_rows = [],
      page_label = 1, notices = [], scans = 0\<rparr>"

text \<open>Python's truth value of \<open>self.file_path\<close>: \<open>None\<close> and the empty string are false.\<close>

fun truthy :: "string option \<Rightarrow> bool" where
  "truthy None = False"
| "truthy (Some p) = (p \<noteq> [])"

section \<open>Loading a page\<close>

text \<open>
  Lines 440-442: \<open>[i for i in range(len(header)) if i not in self.hidden_columns]\<close>.
\<close>

definition visible_columns_of :: "string list \<Rightarrow> int set \<Rightarrow> nat list" where
  "visible_columns_of header hidden =
     filter (\<lambda>i. int i \<notin> hidden) [0..<length header]"

text \<open>
  A list comprehension \<open>[xs[i] for i in idx]\<close>. Indexing past the end raises
  \<open>IndexError\<close>; the values read before that are returned with the error.
\<close>

fun index_each :: "'a list \<Rightarrow> nat list \<Rightarrow> 'a list \<times> error option" where
  "index_each xs [] = ([], None)"
| "index_each xs (i # idx) =
     (if i < length xs
      then (case index_each xs idx of (vs, e) \<Rightarrow> (xs ! i # vs, e))
      else ([], Some IndexError))"

text \<open>
  Lines 450-455: \<open>for _ in range(start)\<close> calls \<open>next(reader)\<close> and leaves the loop at the
  first \<open>StopIteration\<close>. The argument is the number of iterations \<open>range(start)\<close> makes.
\<close>

fun skip_rows :: "nat \<Rightarrow> records \<Rightarrow> records" where
  "skip_rows 0 rs = rs"
| "skip_rows (Suc n) [] = []"
| "skip_rows (Suc n) (r # rs) = skip_rows n rs"

text \<open>
  Line 462: \<open>row + [""] * (len(header) - len(row))\<close>; a list times a negative number is
  the empty list.
\<close>

definition pad_row :: "string list \<Rightarrow> row \<Rightarrow> row" where
  "pad_row header r =
     r @ replicate (nat (int (length header) - int (length r))) ''''"

text \<open>Line 466: \<open>"odd" if row_count % 2 else "even"\<close>.\<close>

definition tag_of :: "int \<Rightarrow> row_tag" where
  "tag_of row_count = (if row_count mod 2 \<noteq> 0 then Odd else Even)"

text \<open>
  Lines 462-464 for one record when every index is in range: the record padded to the
  length of the header, then cut down to the visible columns. A record longer than
  the header keeps its extra fields in \<open>padded_row\<close>, but no visible column reads them.
\<close>

definition projected_row :: "string list \<Rightarrow> nat list \<Rightarrow> row \<Rightarrow> row" where
  "projected_row header vis r = map ((!) (pad_row header r)) vis"

text \<open>
  Lines 458-476: the \<open>for row in reader\<close> loop with its \<open>else\<close> clause. The arguments are
  the page size, the header, the visible columns, \<open>row_count\<close>, the records the reader
  still holds and the rows inserted so far.
\<close>

datatype scan = Finished "(row \<times> row_tag) list" bool | Failed error "(row \<times> row_tag) list"

fun load_rows ::
  "int \<Rightarrow> string list \<Rightarrow> nat list \<Rightarrow> int \<Rightarrow> records \<Rightarrow> (row \<times> row_tag) list \<Rightarrow> scan" where
  "load_rows ps header vis row_count [] tr = Finished tr False"
| "load_rows ps header vis row_count (r # rest) tr =
     (if row_count < ps
      then (case index_each (pad_row header r) vis of
              (vs, Some e) \<Rightarrow> Failed e tr
            | (visible_row, None) \<Rightarrow>
                load_rows ps header vis (row_count + 1) rest
                  (tr @ [(visible_row, tag_of row_count)]))
      else Finished tr True)"

text \<open>
  \<open>_load_page\<close>, lines 416-480. \<open>next(reader)\<close> on a reader that yields nothing raises
  \<open>StopIteration\<close>, which nothing catches, before any attribute is written.
  Assigning the columns of the tree (line 445) starts it with no heading; the loop of
  lines 446-448 then sets one heading for each visible column. Should an index be
  out of range, the exception leaves the headings or rows written up to there.
\<close>

definition load_page :: "records \<Rightarrow> viewer \<Rightarrow> outcome" where
  "load_page recs s =
     (if \<not> truthy (file_path s) then Done s
      else
        let start = current_page s * page_size s;
            s0 = s\<lparr>scans := scans s + 1\<rparr>
        in case recs of
             [] \<Rightarrow> Raised StopIteration s0
           | header # rest \<Rightarrow>
               let visible_columns = visible_columns_of header (hidden_columns s0);
                   s1 = s0\<lparr>column_headers := header, column_visibility_enabled := True,
                          tree_rows := [], tree_columns := visible_columns,
                          tree_headings := []\<rparr>
               in case index_each header visible_columns of
                    (hs, Some e) \<Rightarrow>
                      Raised e (s1\<lparr>tree_headings := zip visible_columns hs\<rparr>)
                  | (hs, None) \<Rightarrow>
                      let s2 = s1\<lparr>tree_headings := zip visible_columns hs\<rparr>
                      in case load_rows (page_size s2) header visible_columns 0
                                (skip_rows (nat start) rest) [] of
                           Failed e tr \<Rightarrow> Raised e (s2\<lparr>tree_rows := tr\<rparr>)
                         | Finished tr hn \<Rightarrow>
                             Done (s2\<lparr>tree_rows := tr, has_next_page := hn\<rparr>))"

section \<open>The operations of the viewer\<close>

text \<open>
  When an operation calls \<open>_load_page\<close> and goes on afterwards, the rest runs only if
  the call returned.
\<close>

fun and_then :: "outcome \<Rightarrow> (viewer \<Rightarrow> viewer) \<Rightarrow> outcome" where
  "and_then (Done s) f = Done (f s)"
| "and_then (Raised e s) f = Raised e s"

text \<open>\<open>next_page\<close>, lines 482-490.\<close>

definition next_page :: "records \<Rightarrow> viewer \<Rightarrow> outcome" where
  "next_page recs s =
     (if has_next_page s
      then and_then (load_page recs (s\<lparr>current_page := current_page s + 1\<rparr>))
             (\<lambda>t. t\<lparr>page_label := current_page t + 1\<rparr>)
      else Done (s\<lparr>notices := notices s @
                     [ShowInfo ''End'' ''You are at the end of the file.'']\<rparr>))"

text \<open>\<open>prev_page\<close>, lines 492-500.\<close>

definition prev_page :: "records \<Rightarrow> viewer \<Rightarrow> outcome" where
  "prev_page recs s =
     (if current_page s > 0
      then and_then (load_page recs (s\<lparr>current_page := current_page s - 1\<rparr>))
             (\<lambda>t. t\<lparr>page_label := current_page t + 1\<rparr>)
      else Done (s\<lparr>notices := notices s @
                     [ShowInfo ''Start'' ''You are at the start of the file.'']\<rparr>))"

text \<open>
  \<open>_on_page_size_changed\<close>, lines 269-282. The argument \<open>entry\<close> is the value of
  \<open>int(self.page_size_var.get())\<close>, \<open>None\<close> when \<open>int\<close> raises \<open>ValueError\<close> on the text of
  the entry. The \<open>except ValueError\<close> clause also encloses the call of \<open>_load_page\<close>, but
  neither exception of this model is a \<open>ValueError\<close>, so it passes through.
\<close>

definition on_page_size_changed :: "int option \<Rightarrow> records \<Rightarrow> viewer \<Rightarrow> outcome" where
  "on_page_size_changed entry recs s =
     (case entry of
        None \<Rightarrow>
          Done (s\<lparr>notices := notices s @
                    [ShowError ''Error'' ''Invalid page size. Please enter a number.'']\<rparr>)
      | Some new_page_size \<Rightarrow>
          if new_page_size > 0
          then let s1 = s\<lparr>page_size := new_page_size, current_page := 0\<rparr>
               in if truthy (file_path s1) then load_page recs s1 else Done s1
          else Done (s\<lparr>notices := notices s @
                    [ShowError ''Error'' ''Page size must be a positive integer.'']\<rparr>))"

text \<open>
  \<open>open_file\<close>, lines 405-414. \<open>path\<close> is what the file dialog returned, the empty string
  when it was cancelled.
\<close>

definition open_file :: "string \<Rightarrow> records \<Rightarrow> viewer \<Rightarrow> outcome" where
  "open_file path recs s =
     (if path \<noteq> []
      then and_then
             (load_page recs
                (s\<lparr>file_path := Some path, current_page := 0, hidden_columns := {}\<rparr>))
             (\<lambda>t. t\<lparr>column_visibility_enabled := True\<rparr>)
      else Done s)"

text \<open>
  \<open>_on_delimiter_changed\<close>, lines 254-267: the first option whose display text is the
  selected one gives the delimiter; with no such option the delimiter stays.
\<close>

fun find_delimiter :: "(char \<times> string) list \<Rightarrow> string \<Rightarrow> char \<Rightarrow> char" where
  "find_delimiter [] selected_display d = d"
| "find_delimiter ((delim, display) # opts) selected_display d =
     (if display = selected_display then delim
      else find_delimiter opts selected_display d)"

definition on_delimiter_changed :: "string \<Rightarrow> records \<Rightarrow> viewer \<Rightarrow> outcome" where
  "on_delimiter_changed selected_display recs s =
     (let s1 = s\<lparr>delimiter := find_delimiter delimiter_options selected_display (delimiter s)\<rparr>
      in if truthy (file_path s1) then load_page recs s1 else Done s1)"

text \<open>
  \<open>_apply_column_visibility\<close>, lines 389-403. \<open>column_vars\<close> maps each column index of
  the selector to the state of its checkbox.
\<close>

definition apply_column_visibility :: "(nat \<times> bool) list \<Rightarrow> records \<Rightarrow> viewer \<Rightarrow> outcome" where
  "apply_column_visibility column_vars recs s =
     load_page recs
       (s\<lparr>hidden_columns := set (map (int \<circ> fst) (filter (\<lambda>(col_idx, var). \<not> var) column_vars))\<rparr>)"

text \<open>
  \<open>_toggle_expand_columns\<close>, lines 284-298: it reloads the page when the flag is set,
  then flips the flag. The text of the button and the widths of the columns are not
  part of the model.
\<close>

definition toggle_expand_columns :: "records \<Rightarrow> viewer \<Rightarrow> outcome" where
  "toggle_expand_columns recs s =
     and_then (if expand_columns s then load_page recs s else Done s)
       (\<lambda>t. t\<lparr>expand_columns := \<not> expand_columns t\<rparr>)"

section \<open>Runs of the viewer\<close>

text \<open>
  The events a user can fire, each with the records the file holds when the event
  scans it. A run starts from the state \<open>__init__\<close> leaves and handles them in order;
  an exception ends the handler, not the run.
\<close>

datatype event =
    OpenFile string records
  | NextPage records
  | PrevPage records
  | ApplyPageSize "int option" records
  | DelimiterChanged string records
  | ApplyColumnVisibility "(nat \<times> bool) list" records
  | ToggleExpandColumns records

fun handle :: "event \<Rightarrow> viewer \<Rightarrow> outcome" where
  "handle (OpenFile path recs) s = open_file path recs s"
| "handle (NextPage recs) s = next_page recs s"
| "handle (PrevPage recs) s = prev_page recs s"
| "handle (ApplyPageSize entry recs) s = on_page_size_changed entry recs s"
| "handle (DelimiterChanged selected_display recs) s = on_delimiter_changed selected_display recs s"
| "handle (ApplyColumnVisibility column_vars recs) s = apply_column_visibility column_vars recs s"
| "handle (ToggleExpandColumns recs) s = toggle_expand_columns recs s"

fun run :: "event list \<Rightarrow> viewer \<Rightarrow> viewer" where
  "run [] s = s"
| "run (ev # evs) s = run evs (state_of (handle ev s))"

section \<open>Splitting a record into fields\<close>

text \<open>
  Modelled from the spec: the record parser. Line 429 builds it with
  \<open>csv.reader(f, delimiter=self.delimiter)\<close>; the reader is library code and not part
  of main.py. The specification asks for field splitting on the delimiter "with
  standard quoting rules (a field may be quoted to contain the delimiter or newlines;
  quote-escaping uses doubled quotes)". The parser below reads the text of one
  record character by character and follows those rules in the way the library's
  reader does with its default dialect: a double quote opens a quoted field only at
  the start of a field; inside a quoted field every character but the double quote
  is data; a double quote inside a quoted field either is the first of a doubled
  pair, which stands for one quote, or closes the quoted part; a line break outside
  a quoted field ends the record; the end of the text ends the record as well. The
  library's limit on the length of a field is not modelled.
\<close>

datatype parse_state =
  START_RECORD | START_FIELD | IN_FIELD | IN_QUOTED_FIELD | QUOTE_IN_QUOTED_FIELD | END_RECORD

definition quotechar :: char where
  "quotechar = CHR 0x22"

definition line_break :: "char \<Rightarrow> bool" where
  "line_break c = (c = CHR 0x0A \<or> c = CHR 0x0D)"

text \<open>
  The parser's state: where it is, the characters of the field being read, and the
  fields of the record completed so far.
\<close>

type_synonym parser = "parse_state \<times> string \<times> string list"

definition start_field :: "char \<Rightarrow> string \<Rightarrow> string list \<Rightarrow> char \<Rightarrow> parser" where
  "start_field d fld fs c =
     (if line_break c then (END_RECORD, [], fs @ [fld])
      else if c = quotechar then (IN_QUOTED_FIELD, fld, fs)
      else if c = d then (START_FIELD, [], fs @ [fld])
      else (IN_FIELD, fld @ [c], fs))"

fun process_char :: "char \<Rightarrow> parser \<Rightarrow> char \<Rightarrow> parser" where
  "process_char d (START_RECORD, fld, fs) c =
     (if line_break c then (END_RECORD, fld, fs) else start_field d fld fs c)"
| "process_char d (START_FIELD, fld, fs) c = start_field d fld fs c"
| "process_char d (IN_FIELD, fld, fs) c =
     (if line_break c then (END_RECORD, [], fs @ [fld])
      else if c = d then (START_FIELD, [], fs @ [fld])
      else (IN_FIELD, fld @ [c], fs))"
| "process_char d (IN_QUOTED_FIELD, fld, fs) c =
     (if c = quotechar then (QUOTE_IN_QUOTED_FIELD, fld, fs)
      else (IN_QUOTED_FIELD, fld @ [c], fs))"
| "process_char d (QUOTE_IN_QUOTED_FIELD, fld, fs) c =
     (if c = quotechar then (IN_QUOTED_FIELD, fld @ [c], fs)
      else if c = d then (START_FIELD, [], fs @ [fld])
      else if line_break c then (END_RECORD, [], fs @ [fld])
      else (IN_FIELD, fld @ [c], fs))"
| "process_char d (END_RECORD, fld, fs) c = (END_RECORD, fld, fs)"

text \<open>The end of the text: a field that was begun is completed.\<close>

fun end_of_text :: "parser \<Rightarrow> string list" where
  "end_of_text (START_RECORD, fld, fs) = fs"
| "end_of_text (END_RECORD, fld, fs) = fs"
| "end_of_text (st, fld, fs) = fs @ [fld]"

definition parse_record :: "char \<Rightarrow> string \<Rightarrow> string list" where
  "parse_record d text = end_of_text (foldl (process_char d) (START_RECORD, [], []) text)"

text \<open>
  How a record is written. A field is written plain, as its characters, or quoted:
  between double quotes, with every double quote of the value doubled. The fields of
  a record are joined by the delimiter. A plain field is well formed when it holds
  neither the delimiter nor a line break and does not begin with a double quote; a
  quoted field may hold any character.
\<close>

datatype field_text = Plain string | Quoted string

fun field_value :: "field_text \<Rightarrow> string" where
  "field_value (Plain v) = v"
| "field_value (Quoted v) = v"

fun escape_quotes :: "string \<Rightarrow> string" where
  "escape_quotes [] = []"
| "escape_quotes (c # cs) =
     (if c = quotechar then quotechar # quotechar # escape_quotes cs
      else c # escape_quotes cs)"

fun render_field :: "field_text \<Rightarrow> string" where
  "render_field (Plain v) = v"
| "render_field (Quoted v) = quotechar # escape_quotes v @ [quotechar]"

fun render_record :: "char \<Rightarrow> field_text list \<Rightarrow> string" where
  "render_record d [] = []"
| "render_record d [f] = render_field f"
| "render_record d (f # g # fs) = render_field f @ d # render_record d (g # fs)"

fun well_formed :: "char \<Rightarrow> field_text \<Rightarrow> bool" where
  "well_formed d (Plain v) =
     (list_all (\<lambda>c. c \<noteq> d \<and> \<not> line_break c) v
      \<and> (case v of [] \<Rightarrow> True | c # cs \<Rightarrow> c \<noteq> quotechar))"
| "well_formed d (Quoted v) = True"

section \<open>A worked file\<close>

text \<open>
  The file with header a,b,c and the data records 1,2,3 / 4,5 / 6,7,8,9, as the reader
  yields it with the comma as delimiter, and the viewer showing it with page size 2
  at a given page index.
\<close>

definition scenario_records :: records where
  "scenario_records =
     [[''a'', ''b'', ''c''], [''1'', ''2'', ''3''], [''4'', ''5''], [''6'', ''7'', ''8'', ''9'']]"

definition scenario_state :: "int \<Rightarrow> viewer" where
  "scenario_state page_index =
     initial_state\<lparr>file_path := Some ''scenario.csv'', delimiter := CHR '','',
                    page_size := 2, current_page := page_index\<rparr>"

section \<open>Facts about loading a page\<close>

lemma skip_rows_drop: "skip_rows n rs = drop n rs"
  by (induction n rs rule: skip_rows.induct) simp_all

lemma index_each_in_range:
  "\<forall>i\<in>set idx. i < length xs \<Longrightarrow> index_each xs idx = (map ((!) xs) idx, None)"
  by (induction idx) simp_all

lemma visible_columns_in_range:
  "i \<in> set (visible_columns_of header hidden) \<Longrightarrow> i < length header"
  by (simp add: visible_columns_of_def)

lemma length_pad_row: "length header \<le> length (pad_row header r)"
  by (simp add: pad_row_def)

lemma visible_row_project:
  assumes "\<forall>i\<in>set vis. i < length header"
  shows "index_each (pad_row header r) vis = (projected_row header vis r, None)"
proof -
  have "\<forall>i\<in>set vis. i < length (pad_row header r)"
    using assms length_pad_row [of header r] by fastforce
  then show ?thesis
    unfolding projected_row_def by (rule index_each_in_range)
qed

lemma load_rows_closed:
  assumes "\<forall>i\<in>set vis. i < length header"
  shows "\<exists>tr'. load_rows ps header vis rc rows tr = Finished tr' (nat (ps - rc) < length rows)
           \<and> map fst tr' = map fst tr @ map (projected_row header vis) (take (nat (ps - rc)) rows)"
proof (induction rows arbitrary: rc tr)
  case Nil
  show ?case by simp
next
  case (Cons r rest)
  show ?case
  proof (cases "rc < ps")
    case True
    from Cons.IH [of "rc + 1" "tr @ [(projected_row header vis r, tag_of rc)]"]
    obtain tr' where
      a: "load_rows ps header vis (rc + 1) rest (tr @ [(projected_row header vis r, tag_of rc)])
            = Finished tr' (nat (ps - (rc + 1)) < length rest)"
      and b: "map fst tr' = map fst (tr @ [(projected_row header vis r, tag_of rc)])
                 @ map (projected_row header vis) (take (nat (ps - (rc + 1))) rest)"
      by blast
    from True have n: "nat (ps - rc) = Suc (nat (ps - (rc + 1)))" by simp
    have "load_rows ps header vis rc (r # rest) tr = Finished tr' (nat (ps - rc) < length (r # rest))"
      using True a n by (simp add: visible_row_project [OF assms])
    moreover have "map fst tr' = map fst tr @ map (projected_row header vis) (take (nat (ps - rc)) (r # rest))"
      using b n by simp
    ultimately show ?thesis by blast
  next
    case False
    then show ?thesis by simp
  qed
qed

lemma load_page_frame:
  "page_size (state_of (load_page recs s)) = page_size s
   \<and> current_page (state_of (load_page recs s)) = current_page s
   \<and> delimiter (state_of (load_page recs s)) = delimiter s
   \<and> hidden_columns (state_of (load_page recs s)) = hidden_columns s
   \<and> file_path (state_of (load_page recs s)) = file_path s"
  by (simp add: load_page_def Let_def split: list.split prod.split option.split scan.split)


lemma load_page_Done:
  assumes "truthy (file_path s)"
  shows "\<exists>s'. load_page (header # rest) s = Done s'
     \<and> map fst (tree_rows s') =
           map (projected_row header (visible_columns_of header (hidden_columns s)))
             (take (nat (page_size s)) (drop (nat (current_page s * page_size s)) rest))
     \<and> has_next_page s' =
           (nat (page_size s) < length (drop (nat (current_page s * page_size s)) rest))
     \<and> tree_columns s' = visible_columns_of header (hidden_columns s)
     \<and> tree_headings s' = map (\<lambda>i. (i, header ! i)) (visible_columns_of header (hidden_columns s))
     \<and> column_headers s' = header"
proof -
  let ?vis = "visible_columns_of header (hidden_columns s)"
  let ?rows = "drop (nat (current_page s * page_size s)) rest"
  have vis: "\<forall>i\<in>set ?vis. i < length header"
    by (simp add: visible_columns_in_range)
  have hd: "index_each header ?vis = (map ((!) header) ?vis, None)"
    using vis by (rule index_each_in_range)
  from load_rows_closed [OF vis, of "page_size s" 0 ?rows "[]"]
  obtain tr' where
    a: "load_rows (page_size s) header ?vis 0 ?rows [] = Finished tr' (nat (page_size s) < length ?rows)"
    and b: "map fst tr' = map (projected_row header ?vis) (take (nat (page_size s)) ?rows)"
    by auto
  have z: "zip ?vis (map ((!) header) ?vis) = map (\<lambda>i. (i, header ! i)) ?vis"
    by (simp add: zip_map2 zip_same_conv_map)
  show ?thesis
    using assms a b hd z by (simp add: load_page_def Let_def skip_rows_drop)
qed

lemma visible_columns_restrict:
  "visible_columns_of header (hidden \<inter> {0..<int (length header)}) = visible_columns_of header hidden"
  unfolding visible_columns_of_def by (rule filter_cong) auto

lemma load_page_hidden_restrict:
  "load_page (header # rest)
       (s\<lparr>hidden_columns := hidden_columns s \<inter> {0..<int (length header)}\<rparr>) =
     (case load_page (header # rest) s of
        Done t \<Rightarrow> Done (t\<lparr>hidden_columns := hidden_columns s \<inter> {0..<int (length header)}\<rparr>)
      | Raised e t \<Rightarrow>
          Raised e (t\<lparr>hidden_columns := hidden_columns s \<inter> {0..<int (length header)}\<rparr>))"
  by (simp add: load_page_def Let_def visible_columns_restrict
      split: prod.split option.split scan.split)

section \<open>Facts about the operations\<close>

lemma and_then_frame:
  assumes "\<And>t. current_page (f t) = current_page t"
  shows "current_page (state_of (and_then r f)) = current_page (state_of r)"
  using assms by (cases r) simp_all

lemma next_page_current:
  "current_page (state_of (next_page recs s)) =
     (if has_next_page s then current_page s + 1 else current_page s)"
  by (simp add: next_page_def and_then_frame load_page_frame)

lemma prev_page_current:
  "current_page (state_of (prev_page recs s)) =
     (if current_page s > 0 then current_page s - 1 else current_page s)"
  by (simp add: prev_page_def and_then_frame load_page_frame)

lemma handle_current_page:
  assumes "0 \<le> current_page s"
  shows "0 \<le> current_page (state_of (handle ev s))"
proof (cases ev)
  case (OpenFile path recs)
  with assms show ?thesis
    by (simp add: open_file_def and_then_frame load_page_frame)
next
  case (NextPage recs)
  with assms show ?thesis by (simp add: next_page_current)
next
  case (PrevPage recs)
  with assms show ?thesis by (simp add: prev_page_current)
next
  case (ApplyPageSize entry recs)
  with assms show ?thesis
    by (cases entry) (simp_all add: on_page_size_changed_def Let_def load_page_frame)
next
  case (DelimiterChanged d recs)
  with assms show ?thesis
    by (simp add: on_delimiter_changed_def Let_def load_page_frame)
next
  case (ApplyColumnVisibility cv recs)
  with assms show ?thesis
    by (simp add: apply_column_visibility_def load_page_frame)
next
  case (ToggleExpandColumns recs)
  with assms show ?thesis
    by (simp add: toggle_expand_columns_def and_then_frame load_page_frame)
qed

lemma run_current_page:
  "0 \<le> current_page s \<Longrightarrow> 0 \<le> current_page (run evs s)"
  by (induction evs arbitrary: s) (simp_all add: handle_current_page)

section \<open>Facts about the record parser\<close>

lemma plain_body:
  "list_all (\<lambda>c. c \<noteq> d \<and> \<not> line_break c) v \<Longrightarrow>
   foldl (process_char d) (IN_FIELD, fld, fs) v = (IN_FIELD, fld @ v, fs)"
  by (induction v arbitrary: fld) simp_all

lemma quoted_body:
  "foldl (process_char d) (IN_QUOTED_FIELD, fld, fs) (escape_quotes v)
     = (IN_QUOTED_FIELD, fld @ v, fs)"
  by (induction v arbitrary: fld) simp_all

lemma quotechar_no_line_break: "\<not> line_break quotechar"
  by (simp add: line_break_def quotechar_def)

lemma quoted_field_read:
  assumes "st = START_RECORD \<or> st = START_FIELD"
  shows "foldl (process_char d) (st, [], fs) (render_field (Quoted v))
           = (QUOTE_IN_QUOTED_FIELD, v, fs)"
  using assms by (auto simp: start_field_def quotechar_no_line_break quoted_body)

lemma plain_field_read:
  assumes "st = START_RECORD \<or> st = START_FIELD" and "well_formed d (Plain v)"
  shows "foldl (process_char d) (st, [], fs) (render_field (Plain v))
           = ((if v = [] then st else IN_FIELD), v, fs)"
proof (cases v)
  case Nil
  then show ?thesis by simp
next
  case (Cons c cs)
  with assms(2) have c: "c \<noteq> d" "\<not> line_break c" "c \<noteq> quotechar"
    and cs: "list_all (\<lambda>c. c \<noteq> d \<and> \<not> line_break c) cs"
    by simp_all
  from assms(1) c have "process_char d (st, [], fs) c = (IN_FIELD, [c], fs)"
    by (auto simp: start_field_def)
  with Cons show ?thesis
    by (simp add: plain_body [OF cs])
qed

lemma field_then_delimiter:
  assumes "st = START_RECORD \<or> st = START_FIELD" and "well_formed d f"
    and "d \<noteq> quotechar" and "\<not> line_break d"
  shows "foldl (process_char d) (st, [], fs) (render_field f @ [d])
           = (START_FIELD, [], fs @ [field_value f])"
proof (cases f)
  case (Plain v)
  with assms show ?thesis
    by (auto simp: plain_field_read start_field_def simp del: well_formed.simps render_field.simps)
next
  case (Quoted v)
  with assms show ?thesis
    by (simp add: quoted_field_read del: render_field.simps)
qed

lemma field_then_end:
  assumes "st = START_RECORD \<or> st = START_FIELD" and "well_formed d f"
    and "\<not> (st = START_RECORD \<and> f = Plain [])"
  shows "end_of_text (foldl (process_char d) (st, [], fs) (render_field f))
           = fs @ [field_value f]"
proof (cases f)
  case (Plain v)
  with assms show ?thesis
    by (auto simp: plain_field_read simp del: well_formed.simps render_field.simps)
next
  case (Quoted v)
  with assms show ?thesis
    by (simp add: quoted_field_read del: render_field.simps)
qed

lemma record_read:
  "d \<noteq> quotechar \<Longrightarrow> \<not> line_break d \<Longrightarrow>
   list_all (well_formed d) flds \<Longrightarrow> flds \<noteq> [] \<Longrightarrow>
   st = START_RECORD \<or> st = START_FIELD \<Longrightarrow>
   \<not> (st = START_RECORD \<and> flds = [Plain []]) \<Longrightarrow>
   end_of_text (foldl (process_char d) (st, [], fs) (render_record d flds))
     = fs @ map field_value flds"
proof (induction d flds arbitrary: st fs rule: render_record.induct)
  case (1 d)
  then show ?case by simp
next
  case (2 d f)
  then show ?case by (simp add: field_then_end del: render_field.simps well_formed.simps)
next
  case (3 d f g rest)
  have split: "render_record d (f # g # rest) = (render_field f @ [d]) @ render_record d (g # rest)"
    by simp
  have wf: "well_formed d f" using "3.prems"(3) by simp
  have a: "foldl (process_char d) (st, [], fs) (render_field f @ [d])
           = (START_FIELD, [], fs @ [field_value f])"
    using "3.prems"(5) wf "3.prems"(1) "3.prems"(2) by (rule field_then_delimiter)
  have b: "end_of_text (foldl (process_char d) (START_FIELD, [], fs @ [field_value f])
              (render_record d (g # rest))) = (fs @ [field_value f]) @ map field_value (g # rest)"
    using "3.prems"(1,2,3) by (intro "3.IH") simp_all
  from a have a': "process_char d (foldl (process_char d) (st, [], fs) (render_field f)) d
           = (START_FIELD, [], fs @ [field_value f])"
    by simp
  have "foldl (process_char d) (st, [], fs) (render_record d (f # g # rest))
          = foldl (process_char d) (START_FIELD, [], fs @ [field_value f])
              (render_record d (g # rest))"
    by (simp add: a')
  with b show ?case by simp
qed

lemma delimiter_chars:
  assumes "d \<in> fst ` set delimiter_options"
  shows "d \<noteq> quotechar \<and> \<not> line_break d"
  using assms by (auto simp: delimiter_options_def quotechar_def line_break_def)

text \<open>The four lines of the scenario file, split at the comma, are its records.\<close>

lemma scenario_records_parsed:
  "map (parse_record (CHR '','')) [''a,b,c'', ''1,2,3'', ''4,5'', ''6,7,8,9''] = scenario_records"
  by (simp add: parse_record_def start_field_def line_break_def quotechar_def
      scenario_records_def)

lemmas scenario_eval = scenario_state_def scenario_records_def initial_state_def load_page_def
  visible_columns_of_def upt_rec pad_row_def tag_of_def Let_def skip_rows_drop eval_nat_numeral

section \<open>The pagination claims\<close>

text \<open>
  C1. For a loaded, non-empty file and a page size above zero, loading a page returns
  (no exception), the tree holds at most \<open>page_size\<close> rows, and when it holds fewer than
  \<open>page_size\<close> rows then \<open>has_next_page\<close> is false. The page index is not restricted.
\<close>

theorem page_rows_bounded:
  assumes "truthy (file_path s)" and "recs \<noteq> []" and "0 < page_size s"
  shows "raised (load_page recs s) = None
     \<and> int (length (tree_rows (state_of (load_page recs s)))) \<le> page_size s
     \<and> (int (length (tree_rows (state_of (load_page recs s)))) < page_size s
          \<longrightarrow> \<not> has_next_page (state_of (load_page recs s)))"
proof -
  from assms(2) obtain header rest where r: "recs = header # rest"
    by (cases recs) auto
  from load_page_Done [OF assms(1), of header rest]
  obtain s' where d: "load_page recs s = Done s'"
    and m: "map fst (tree_rows s') =
           map (projected_row header (visible_columns_of header (hidden_columns s)))
             (take (nat (page_size s)) (drop (nat (current_page s * page_size s)) rest))"
    and h: "has_next_page s' =
           (nat (page_size s) < length (drop (nat (current_page s * page_size s)) rest))"
    unfolding r by blast
  from m have "length (map fst (tree_rows s')) =
      length (take (nat (page_size s)) (drop (nat (current_page s * page_size s)) rest))"
    by simp
  then have l: "length (tree_rows s') =
      min (length (drop (nat (current_page s * page_size s)) rest)) (nat (page_size s))"
    by simp
  show ?thesis
    using d l h assms(3) by (auto split: if_splits)
qed

text \<open>On the scenario file, page 1 of size 2 holds one row and has no next page.\<close>

theorem page_rows_bounded_witness:
  "truthy (file_path (scenario_state 1)) \<and> scenario_records \<noteq> []
   \<and> 0 < page_size (scenario_state 1)
   \<and> raised (load_page scenario_records (scenario_state 1)) = None
   \<and> length (tree_rows (state_of (load_page scenario_records (scenario_state 1)))) = 1
   \<and> \<not> has_next_page (state_of (load_page scenario_records (scenario_state 1)))"
  using page_rows_bounded [of "scenario_state 1" scenario_records]
  by (simp add: scenario_eval)

text \<open>
  C2. The scenario file (header a,b,c; records 1,2,3 / 4,5 / 6,7,8,9) read with the
  comma and page size 2: page 0 shows the rows [1,2,3] and [4,5,""] and has a next
  page; page 1 shows the single row [6,7,8] and has none. The whole state after each
  load is given.
\<close>

theorem scenario_pages:
  "load_page scenario_records (scenario_state 0) =
     Done ((scenario_state 0)\<lparr>scans := 1, column_headers := [''a'', ''b'', ''c''],
        column_visibility_enabled := True, tree_columns := [0, 1, 2],
        tree_headings := [(0, ''a''), (1, ''b''), (2, ''c'')],
        tree_rows := [([''1'', ''2'', ''3''], Even), ([''4'', ''5'', ''''], Odd)],
        has_next_page := True\<rparr>)
   \<and> load_page scenario_records (scenario_state 1) =
     Done ((scenario_state 1)\<lparr>scans := 1, column_headers := [''a'', ''b'', ''c''],
        column_visibility_enabled := True, tree_columns := [0, 1, 2],
        tree_headings := [(0, ''a''), (1, ''b''), (2, ''c'')],
        tree_rows := [([''6'', ''7'', ''8''], Even)],
        has_next_page := False\<rparr>)"
  by (simp add: scenario_eval)

text \<open>
  C3, for files that have a header record. For such a loaded file, when
  \<open>current_page * page_size\<close> is at least the number of data records, loading the page
  returns (no exception) with no rows and \<open>has_next_page\<close> false.
\<close>

theorem page_beyond_data:
  assumes "truthy (file_path s)"
    and "int (length rest) \<le> current_page s * page_size s"
  shows "raised (load_page (header # rest) s) = None
     \<and> tree_rows (state_of (load_page (header # rest) s)) = []
     \<and> \<not> has_next_page (state_of (load_page (header # rest) s))"
proof -
  from load_page_Done [OF assms(1), of header rest]
  obtain s' where d: "load_page (header # rest) s = Done s'"
    and m: "map fst (tree_rows s') =
           map (projected_row header (visible_columns_of header (hidden_columns s)))
             (take (nat (page_size s)) (drop (nat (current_page s * page_size s)) rest))"
    and h: "has_next_page s' =
           (nat (page_size s) < length (drop (nat (current_page s * page_size s)) rest))"
    by blast
  from assms(2) have e: "drop (nat (current_page s * page_size s)) rest = []"
    by simp
  from m e have "tree_rows s' = []" by simp
  with d h e show ?thesis by simp
qed

text \<open>Page 2 of size 2 of the scenario file, which has three data records.\<close>

theorem page_beyond_data_witness:
  "truthy (file_path (scenario_state 2))
   \<and> int (length (tl scenario_records))
        \<le> current_page (scenario_state 2) * page_size (scenario_state 2)
   \<and> raised (load_page scenario_records (scenario_state 2)) = None
   \<and> tree_rows (state_of (load_page scenario_records (scenario_state 2))) = []
   \<and> \<not> has_next_page (state_of (load_page scenario_records (scenario_state 2)))"
  using page_beyond_data [of "scenario_state 2" "tl scenario_records" "hd scenario_records"]
  by (simp add: scenario_state_def scenario_records_def initial_state_def)

text \<open>
  C3 as it is stated covers every file. The empty file has no data records, so page 0
  is at or beyond its data, yet loading it raises \<open>StopIteration\<close> at line 430.
\<close>

theorem page_beyond_data_counterexample:
  "truthy (file_path (scenario_state 0))
   \<and> int (length (tl ([] :: records)))
        \<le> current_page (scenario_state 0) * page_size (scenario_state 0)
   \<and> raised (load_page [] (scenario_state 0)) = Some StopIteration"
  by (simp add: scenario_state_def initial_state_def load_page_def)

text \<open>
  C4. For a loaded file that is empty, so that the reader yields no header record,
  loading a page fails: \<open>next(reader)\<close> raises \<open>StopIteration\<close> (the failure the
  specification calls FormatError), and nothing but the count of scans has changed.
\<close>

theorem empty_file_raises:
  assumes "truthy (file_path s)"
  shows "load_page [] s = Raised StopIteration (s\<lparr>scans := scans s + 1\<rparr>)"
  using assms by (simp add: load_page_def)

theorem empty_file_raises_witness:
  "truthy (file_path (scenario_state 0))
   \<and> load_page [] (scenario_state 0) = Raised StopIteration ((scenario_state 0)\<lparr>scans := 1\<rparr>)"
  using empty_file_raises [of "scenario_state 0"]
  by (simp add: scenario_state_def initial_state_def)

text \<open>
  C5. For a loaded file with exactly \<open>page_size\<close> data records: page 0 shows every one
  of them (each padded and cut down to the visible columns), \<open>page_size\<close> rows in all,
  with \<open>has_next_page\<close> false; page 1 shows no row, with \<open>has_next_page\<close> false.
\<close>

theorem exact_page:
  assumes "truthy (file_path s)" and "int (length rows) = page_size s"
  shows "raised (load_page (header # rows) (s\<lparr>current_page := 0\<rparr>)) = None
     \<and> map fst (tree_rows (state_of (load_page (header # rows) (s\<lparr>current_page := 0\<rparr>)))) =
         map (projected_row header (visible_columns_of header (hidden_columns s))) rows
     \<and> int (length (tree_rows (state_of (load_page (header # rows) (s\<lparr>current_page := 0\<rparr>)))))
         = page_size s
     \<and> \<not> has_next_page (state_of (load_page (header # rows) (s\<lparr>current_page := 0\<rparr>)))
     \<and> raised (load_page (header # rows) (s\<lparr>current_page := 1\<rparr>)) = None
     \<and> tree_rows (state_of (load_page (header # rows) (s\<lparr>current_page := 1\<rparr>))) = []
     \<and> \<not> has_next_page (state_of (load_page (header # rows) (s\<lparr>current_page := 1\<rparr>)))"
proof -
  let ?s0 = "s\<lparr>current_page := 0\<rparr>"
  have t0: "truthy (file_path ?s0)" using assms(1) by simp
  from load_page_Done [OF t0, of header rows]
  obtain s' where d: "load_page (header # rows) ?s0 = Done s'"
    and m: "map fst (tree_rows s') =
           map (projected_row header (visible_columns_of header (hidden_columns s)))
             (take (nat (page_size s)) rows)"
    and h: "has_next_page s' = (nat (page_size s) < length rows)"
    by auto
  from assms(2) have n: "nat (page_size s) = length rows" by simp
  from m n have m': "map fst (tree_rows s') =
      map (projected_row header (visible_columns_of header (hidden_columns s))) rows"
    by simp
  from m' have "length (map fst (tree_rows s')) = length rows"
    by simp
  then have l: "int (length (tree_rows s')) = page_size s"
    using assms(2) by simp
  have p0: "raised (load_page (header # rows) ?s0) = None
     \<and> map fst (tree_rows (state_of (load_page (header # rows) ?s0))) =
         map (projected_row header (visible_columns_of header (hidden_columns s))) rows
     \<and> int (length (tree_rows (state_of (load_page (header # rows) ?s0)))) = page_size s
     \<and> \<not> has_next_page (state_of (load_page (header # rows) ?s0))"
    using d m' l h n by simp
  let ?s1 = "s\<lparr>current_page := 1\<rparr>"
  have t1: "truthy (file_path ?s1)" using assms(1) by simp
  have p1: "raised (load_page (header # rows) ?s1) = None
     \<and> tree_rows (state_of (load_page (header # rows) ?s1)) = []
     \<and> \<not> has_next_page (state_of (load_page (header # rows) ?s1))"
  proof -
    from load_page_Done [OF t1, of header rows]
    obtain s'' where d1: "load_page (header # rows) ?s1 = Done s''"
      and m1: "map fst (tree_rows s'') =
           map (projected_row header (visible_columns_of header (hidden_columns s)))
             (take (nat (page_size s)) (drop (nat (page_size s)) rows))"
      and h1: "has_next_page s'' = (nat (page_size s) < length (drop (nat (page_size s)) rows))"
      by auto
    from m1 n have "tree_rows s'' = []" by simp
    with d1 h1 n show ?thesis by simp
  qed
  from p0 p1 show ?thesis by simp
qed

text \<open>The first two data records of the scenario file, with page size 2.\<close>

theorem exact_page_witness:
  "truthy (file_path (scenario_state 0))
   \<and> int (length (take 2 (tl scenario_records))) = page_size (scenario_state 0)
   \<and> map fst (tree_rows (state_of (load_page (take 3 scenario_records) (scenario_state 0))))
       = [[''1'', ''2'', ''3''], [''4'', ''5'', '''']]
   \<and> \<not> has_next_page (state_of (load_page (take 3 scenario_records) (scenario_state 0)))
   \<and> raised (load_page (take 3 scenario_records) (scenario_state 1)) = None
   \<and> tree_rows (state_of (load_page (take 3 scenario_records) (scenario_state 1))) = []
   \<and> \<not> has_next_page (state_of (load_page (take 3 scenario_records) (scenario_state 1)))"
  using exact_page [of "scenario_state 0" "take 2 (tl scenario_records)" "hd scenario_records"]
  by (simp add: scenario_eval projected_row_def)

text \<open>
  C6. When the text of the page size entry is not a number (\<open>entry = None\<close>) or is a
  number that is not above zero, \<open>_on_page_size_changed\<close> shows an error box and does
  nothing else: the state is the old one with the notice added, so the page size is
  the one before and the file has not been scanned.
\<close>

theorem bad_page_size_rejected:
  assumes "entry = None \<or> (\<exists>n. entry = Some n \<and> n \<le> 0)"
  shows "on_page_size_changed entry recs s =
           Done (s\<lparr>notices := notices s @
             [ShowError ''Error''
                (case entry of
                   None \<Rightarrow> ''Invalid page size. Please enter a number.''
                 | Some n \<Rightarrow> ''Page size must be a positive integer.'')]\<rparr>)
     \<and> page_size (state_of (on_page_size_changed entry recs s)) = page_size s
     \<and> scans (state_of (on_page_size_changed entry recs s)) = scans s"
  using assms by (auto simp: on_page_size_changed_def)

theorem bad_page_size_rejected_witness:
  "on_page_size_changed None scenario_records (scenario_state 1) =
     Done ((scenario_state 1)\<lparr>notices :=
        [ShowError ''Error'' ''Invalid page size. Please enter a number.'']\<rparr>)
   \<and> (0::int) \<le> 0
   \<and> on_page_size_changed (Some 0) scenario_records (scenario_state 1) =
     Done ((scenario_state 1)\<lparr>notices :=
        [ShowError ''Error'' ''Page size must be a positive integer.'']\<rparr>)
   \<and> page_size (state_of (on_page_size_changed (Some (- 5)) scenario_records (scenario_state 1))) = 2
   \<and> scans (state_of (on_page_size_changed (Some (- 5)) scenario_records (scenario_state 1))) = 0"
  using bad_page_size_rejected [of None scenario_records "scenario_state 1"]
    bad_page_size_rejected [of "Some 0" scenario_records "scenario_state 1"]
    bad_page_size_rejected [of "Some (- 5)" scenario_records "scenario_state 1"]
  by (simp add: scenario_state_def initial_state_def)

text \<open>
  C7. For a loaded file with a header, hidden indices outside \<open>[0, len(header))\<close> change
  nothing: the visible columns are those of the hidden set cut down to that range,
  loading the page raises nothing, and loading it with the cut-down hidden set gives
  the same state (columns, headings, rows, \<open>has_next_page\<close>) but for the hidden set
  itself.
\<close>

theorem stale_hidden_ignored:
  assumes "truthy (file_path s)"
  shows "visible_columns_of header (hidden_columns s \<inter> {0..<int (length header)})
           = visible_columns_of header (hidden_columns s)
     \<and> raised (load_page (header # rest) s) = None
     \<and> load_page (header # rest)
          (s\<lparr>hidden_columns := hidden_columns s \<inter> {0..<int (length header)}\<rparr>)
         = Done ((state_of (load_page (header # rest) s))
                  \<lparr>hidden_columns := hidden_columns s \<inter> {0..<int (length header)}\<rparr>)"
proof -
  from load_page_Done [OF assms, of header rest]
  obtain s' where d: "load_page (header # rest) s = Done s'" by blast
  show ?thesis
    using d load_page_hidden_restrict [of header rest s]
    by (simp add: visible_columns_restrict)
qed

text \<open>The scenario file with the hidden set {-1, 1, 7}: only column 1 is hidden.\<close>

theorem stale_hidden_ignored_witness:
  "truthy (file_path ((scenario_state 0)\<lparr>hidden_columns := {-1, 1, 7}\<rparr>))
   \<and> visible_columns_of [''a'', ''b'', ''c''] ({-1, 1, 7} \<inter> {0..<3}) = [0, 2]
   \<and> visible_columns_of [''a'', ''b'', ''c''] {-1, 1, 7} = [0, 2]
   \<and> raised (load_page scenario_records ((scenario_state 0)\<lparr>hidden_columns := {-1, 1, 7}\<rparr>)) = None
   \<and> map fst (tree_rows (state_of (load_page scenario_records
         ((scenario_state 0)\<lparr>hidden_columns := {-1, 1, 7} \<inter> {0..<3}\<rparr>))))
       = [[''1'', ''3''], [''4'', '''']]
   \<and> map fst (tree_rows (state_of (load_page scenario_records
         ((scenario_state 0)\<lparr>hidden_columns := {-1, 1, 7}\<rparr>))))
       = [[''1'', ''3''], [''4'', '''']]"
  using stale_hidden_ignored [of "(scenario_state 0)\<lparr>hidden_columns := {-1, 1, 7}\<rparr>"
      "[''a'', ''b'', ''c'']" "tl scenario_records"]
  by (simp add: scenario_eval)

text \<open>
  C8, for records written with the delimiter they are parsed with. Take one of the
  five delimiters on offer and a record written as fields joined by that delimiter,
  one of them a quoted field with any value at all (so also one that holds the
  delimiter, double quotes or line breaks), the others well formed. Parsing the text
  of the record with that delimiter gives back the value of every field, the quoted
  one as a single field: the delimiter inside the quotes does not split it, and each
  doubled quote is read as one quote.
\<close>

theorem quoted_field_kept_whole:
  assumes "d \<in> fst ` set delimiter_options"
    and "\<forall>f \<in> set (pre @ post). well_formed d f"
  shows "parse_record d (render_record d (pre @ Quoted v # post))
           = map field_value pre @ v # map field_value post"
proof -
  from assms(1) have d: "d \<noteq> quotechar" "\<not> line_break d"
    by (simp_all add: delimiter_chars)
  from assms(2) have wf: "list_all (well_formed d) (pre @ Quoted v # post)"
    by (simp add: list_all_iff)
  have ne: "pre @ Quoted v # post \<noteq> []" by simp
  have nb: "\<not> (START_RECORD = START_RECORD \<and> pre @ Quoted v # post = [Plain []])"
    by (cases pre) simp_all
  have "end_of_text (foldl (process_char d) (START_RECORD, [], []) (render_record d (pre @ Quoted v # post)))
          = [] @ map field_value (pre @ Quoted v # post)"
    using d wf ne _ nb by (rule record_read) simp
  then show ?thesis by (simp add: parse_record_def)
qed

text \<open>
  With the semicolon, the record \<open>a;"x;y ""z""";b\<close> has the three fields \<open>a\<close>,
  \<open>x;y "z"\<close> and \<open>b\<close>.
\<close>

theorem quoted_field_kept_whole_witness:
  "CHR '';'' \<in> fst ` set delimiter_options
   \<and> list_all (well_formed (CHR '';'')) ([Plain ''a''] @ [Plain ''b''])
   \<and> render_record (CHR '';'') ([Plain ''a''] @ Quoted (''x;y '' @ [quotechar] @ ''z'' @ [quotechar]) # [Plain ''b''])
       = ''a;'' @ [quotechar] @ ''x;y '' @ [quotechar, quotechar] @ ''z'' @ [quotechar, quotechar, quotechar] @ '';b''
   \<and> parse_record (CHR '';'') (''a;'' @ [quotechar] @ ''x;y '' @ [quotechar, quotechar] @ ''z'' @ [quotechar, quotechar, quotechar] @ '';b'')
       = [''a'', ''x;y '' @ [quotechar] @ ''z'' @ [quotechar], ''b'']"
  using quoted_field_kept_whole [of "CHR '';''" "[Plain ''a'']" "[Plain ''b'']"
      "''x;y '' @ [quotechar] @ ''z'' @ [quotechar]"]
  by (simp add: delimiter_options_def quotechar_def line_break_def)

text \<open>
  C8 as it is stated covers every record that holds a quoted field, also one written
  with another delimiter. The record \<open>a,"x;y",b\<close> is written with the comma and read
  with the comma it has the fields \<open>a\<close>, \<open>x;y\<close> and \<open>b\<close>. Read with the semicolon, its
  first field begins with \<open>a\<close>, so the double quote after the comma does not open a
  quoted field: the semicolon between the quotes splits the record into \<open>a,"x\<close> and
  \<open>y",b\<close>, and the value \<open>x;y\<close> is no field of it.
\<close>

theorem quoted_field_kept_whole_counterexample:
  "CHR '','' \<in> fst ` set delimiter_options
   \<and> CHR '';'' \<in> fst ` set delimiter_options
   \<and> render_record (CHR '','') [Plain ''a'', Quoted ''x;y'', Plain ''b'']
       = ''a,'' @ [quotechar] @ ''x;y'' @ [quotechar] @ '',b''
   \<and> parse_record (CHR '','') (''a,'' @ [quotechar] @ ''x;y'' @ [quotechar] @ '',b'')
       = [''a'', ''x;y'', ''b'']
   \<and> parse_record (CHR '';'') (''a,'' @ [quotechar] @ ''x;y'' @ [quotechar] @ '',b'')
       = [''a,'' @ [quotechar] @ ''x'', ''y'' @ [quotechar] @ '',b'']
   \<and> ''x;y'' \<notin> set (parse_record (CHR '';'') (''a,'' @ [quotechar] @ ''x;y'' @ [quotechar] @ '',b''))"
  by (simp add: delimiter_options_def parse_record_def start_field_def line_break_def
      quotechar_def)

text \<open>
  C9. After any sequence of events from the state \<open>__init__\<close> leaves (next page and
  previous page among them, with whatever the file holds at each scan) the page index
  is at least 0. \<open>prev_page\<close> at page index 0 leaves the page index as it is, and so
  does \<open>next_page\<close> when \<open>has_next_page\<close> is false.
\<close>

theorem page_index_never_negative:
  "0 \<le> current_page (run evs initial_state)
   \<and> (current_page s = 0 \<longrightarrow> current_page (state_of (prev_page recs s)) = current_page s)
   \<and> (\<not> has_next_page s \<longrightarrow> current_page (state_of (next_page recs s)) = current_page s)"
proof -
  have "0 \<le> current_page initial_state" by (simp add: initial_state_def)
  then have "0 \<le> current_page (run evs initial_state)" by (rule run_current_page)
  then show ?thesis by (simp add: next_page_current prev_page_current)
qed

text \<open>
  Opening the scenario file, setting the page size to 2 and going to the next page
  leads to page 1; two steps back lead to page 0 and stay there.
\<close>

theorem page_index_never_negative_witness:
  "current_page (run [OpenFile ''scenario.csv'' scenario_records,
        ApplyPageSize (Some 2) scenario_records, NextPage scenario_records] initial_state) = 1
   \<and> current_page (run [OpenFile ''scenario.csv'' scenario_records,
        ApplyPageSize (Some 2) scenario_records, NextPage scenario_records,
        PrevPage scenario_records, PrevPage scenario_records] initial_state) = 0
   \<and> current_page (scenario_state 0) = 0
   \<and> current_page (state_of (prev_page scenario_records (scenario_state 0))) = 0
   \<and> \<not> has_next_page (scenario_state 0)
   \<and> current_page (state_of (next_page scenario_records (scenario_state 0))) = 0"
  using page_index_never_negative [of "[OpenFile ''scenario.csv'' scenario_records,
        ApplyPageSize (Some 2) scenario_records, NextPage scenario_records]"
      "scenario_state 0" scenario_records]
  by (simp add: scenario_eval open_file_def on_page_size_changed_def next_page_def
      prev_page_def)

text \<open>
  C10. For a new page size \<open>n > 0\<close>, \<open>_on_page_size_changed\<close> stores \<open>n\<close> as the page size
  and sets the page index to 0; the delimiter and the hidden columns are as before.
  This holds for the state the operation leaves whether or not the reload raised.
\<close>

theorem page_size_change_resets_page:
  assumes "0 < n"
  shows "page_size (state_of (on_page_size_changed (Some n) recs s)) = n
   \<and> current_page (state_of (on_page_size_changed (Some n) recs s)) = 0
   \<and> delimiter (state_of (on_page_size_changed (Some n) recs s)) = delimiter s
   \<and> hidden_columns (state_of (on_page_size_changed (Some n) recs s)) = hidden_columns s"
  using assms by (simp add: on_page_size_changed_def Let_def load_page_frame)

theorem page_size_change_resets_page_witness:
  "(0::int) < 50
   \<and> page_size (state_of (on_page_size_changed (Some 50) scenario_records (scenario_state 1))) = 50
   \<and> current_page (state_of (on_page_size_changed (Some 50) scenario_records (scenario_state 1))) = 0
   \<and> delimiter (state_of (on_page_size_changed (Some 50) scenario_records (scenario_state 1)))
       = CHR '',''
   \<and> hidden_columns (state_of (on_page_size_changed (Some 50) scenario_records (scenario_state 1)))
       = {}"
  using page_size_change_resets_page [of 50 scenario_records "scenario_state 1"]
  by (simp add: scenario_state_def initial_state_def)

end
